theory Spec2Isabelle
  imports Main "HOL-Library.Word"
begin

unbundle bit_operations_syntax

section \<open>Data model of authoduino.ino\<close>

text \<open>
  The sketch runs on an AVR Arduino: \<open>byte\<close> is 8 bits and \<open>unsigned long\<close> (the type
  of \<open>millis()\<close> and of the four timestamps) is 32 bits, so every subtraction and
  comparison on ticks below is the one of \<open>32 word\<close>.
\<close>

type_synonym byte = "8 word"
type_synonym ulong = "32 word"

datatype Command = NONE | ENABLE | DISABLE | PING

datatype State = ABANDONED | ENABLED | DISABLED

datatype pin = PIN_LED_GREEN | PIN_LED_RED | PIN_RELAY

text \<open>Led colours (lines 45-48).\<close>

definition OFF :: byte where "OFF = 0"
definition GREEN :: byte where "GREEN = 1"
definition RED :: byte where "RED = 2"
definition YELLOW :: byte where "YELLOW = (GREEN OR RED)"

text \<open>Timing constants (lines 51-56).\<close>

definition LED_BLINK_INTERVAL :: ulong where "LED_BLINK_INTERVAL = 2000"
definition LED_BLINK_TIME :: ulong where "LED_BLINK_TIME = 120"
definition BUTTON_INTERVAL_TIME :: ulong where "BUTTON_INTERVAL_TIME = 3000"
definition ABANDONED_TIME :: ulong where "ABANDONED_TIME = 30000"
definition ABANDONED_MSG_INTERVAL :: ulong where "ABANDONED_MSG_INTERVAL = 5000"

text \<open>
  What one transaction on the 1-Wire bus finds: \<open>ds.reset()\<close> returns zero
  (\<open>NoPresence\<close>), or it returns nonzero and \<open>ds.search(id)\<close> returns zero
  (\<open>NoDevice\<close>), or \<open>ds.search(id)\<close> fills \<open>byte id[8]\<close> (\<open>Device\<close>).
\<close>

datatype onewire = NoPresence | NoDevice | Device "byte list"

text \<open>
  The globals of the sketch (\<open>state\<close>, \<open>lastblink\<close>, \<open>lastread\<close>, \<open>lastcmd\<close>,
  \<open>lastmsg\<close>) together with the hardware the sketch talks to:
  \<^item> \<open>clock\<close> and \<open>calls\<close>: \<open>clock w k\<close> is what the \<open>k\<close>-th call of \<open>millis()\<close>
    returns, \<open>calls\<close> counts the calls made so far, so two calls in one iteration
    may read different ticks;
  \<^item> \<open>rx\<close>: the bytes buffered on the serial input, oldest first; \<open>tx\<close>: every byte
    written to the serial output so far;
  \<^item> \<open>onewire_bus\<close>: what a transaction on the 1-Wire bus finds; \<open>crc8\<close>: the
    checksum function \<open>OneWire::crc8\<close> of the bus driver, a parameter here;
  \<^item> the levels last written to the three output pins.
\<close>

record world =
  state :: State
  lastblink :: ulong
  lastread :: ulong
  lastcmd :: ulong
  lastmsg :: ulong
  clock :: "nat \<Rightarrow> ulong"
  calls :: nat
  rx :: string
  tx :: string
  onewire_bus :: onewire
  crc8 :: "byte list \<Rightarrow> byte"
  pin_relay :: bool
  pin_led_green :: bool
  pin_led_red :: bool

section \<open>The Arduino primitives the sketch calls\<close>

definition millis :: "world \<Rightarrow> ulong \<times> world" where
  "millis w = (clock w (calls w), w\<lparr>calls := Suc (calls w)\<rparr>)"

text \<open>\<open>digitalWrite(pin, val)\<close> drives the pin high for every nonzero \<open>val\<close>.\<close>

fun digitalWrite :: "pin \<Rightarrow> byte \<Rightarrow> world \<Rightarrow> world" where
  "digitalWrite PIN_LED_GREEN v w = w\<lparr>pin_led_green := (v \<noteq> 0)\<rparr>"
| "digitalWrite PIN_LED_RED v w = w\<lparr>pin_led_red := (v \<noteq> 0)\<rparr>"
| "digitalWrite PIN_RELAY v w = w\<lparr>pin_relay := (v \<noteq> 0)\<rparr>"

definition HIGH :: byte where "HIGH = 1"
definition LOW :: byte where "LOW = 0"

text \<open>\<open>Serial.println\<close> ends the line with carriage return and line feed.\<close>

definition line_break :: string where
  "line_break = [CHR 0x0D, CHR 0x0A]"

definition Serial_print :: "string \<Rightarrow> world \<Rightarrow> world" where
  "Serial_print s w = w\<lparr>tx := tx w @ s\<rparr>"

definition Serial_println :: "string \<Rightarrow> world \<Rightarrow> world" where
  "Serial_println s w = w\<lparr>tx := tx w @ s @ line_break\<rparr>"

text \<open>
  \<open>Serial.print(n, HEX)\<close>: the digits of \<open>n\<close> in base 16, most significant first,
  at least one digit, letters in upper case (\<open>c < 10 ? c + '0' : c + 'A' - 10\<close>).
\<close>

definition hex_digit :: "nat \<Rightarrow> char" where
  "hex_digit c = (if c < 10 then char_of (c + 48) else char_of (c + 65 - 10))"

fun print_HEX :: "nat \<Rightarrow> string" where
  "print_HEX n = (if n < 16 then [hex_digit n] else print_HEX (n div 16) @ [hex_digit (n mod 16)])"

declare print_HEX.simps [simp del]

definition Serial_print_HEX :: "byte \<Rightarrow> world \<Rightarrow> world" where
  "Serial_print_HEX b w = Serial_print (print_HEX (unat b)) w"

section \<open>The sketch\<close>

text \<open>
  The test \<open>millis() - D > T && millis() > D\<close> of lines 125, 132, 154 and 164, with \<open>D\<close>
  the interval and \<open>T\<close> the recorded timestamp. \<open>gate m1 m2 D T\<close> is its value when
  the two calls read \<open>m1\<close> and \<open>m2\<close>; \<open>interval_elapsed\<close> reads the clock, the second
  time only when the first comparison holds (\<open>&&\<close> short-circuits).
\<close>

definition gate :: "ulong \<Rightarrow> ulong \<Rightarrow> ulong \<Rightarrow> ulong \<Rightarrow> bool" where
  "gate m1 m2 D T = (m1 - D > T \<and> m2 > D)"

definition interval_elapsed :: "ulong \<Rightarrow> ulong \<Rightarrow> world \<Rightarrow> bool \<times> world" where
  "interval_elapsed D T w =
     (case millis w of (m1, w1) \<Rightarrow>
        if m1 - D > T then (case millis w1 of (m2, w2) \<Rightarrow> (m2 > D, w2))
        else (False, w1))"

text \<open>\<open>led\<close> (lines 163-174).\<close>

definition led :: "byte \<Rightarrow> world \<Rightarrow> world" where
  "led color w =
     (case interval_elapsed LED_BLINK_INTERVAL (lastblink w) w of (blink, w1) \<Rightarrow>
        let w2 = (if blink
                  then (case millis (digitalWrite PIN_LED_RED 0 (digitalWrite PIN_LED_GREEN 0 w1)) of
                          (m, w') \<Rightarrow> w'\<lparr>lastblink := m\<rparr>)
                  else w1)
        in (case millis w2 of (m, w3) \<Rightarrow>
              if m - LED_BLINK_TIME > lastblink w3
              then digitalWrite PIN_LED_RED (color AND RED) (digitalWrite PIN_LED_GREEN (color AND GREEN) w3)
              else w3))"

text \<open>
  The loop of lines 187-190: for \<open>i\<close> from 0 to 7, a \<open>0\<close> when \<open>id[i] < 16\<close>, then
  \<open>id[i]\<close> in hexadecimal.
\<close>

function dump_id :: "byte list \<Rightarrow> nat \<Rightarrow> world \<Rightarrow> world" where
  "dump_id ident i w =
     (if i < 8
      then dump_id ident (Suc i)
             (Serial_print_HEX (ident ! i)
                (if ident ! i < 16 then Serial_print ''0'' w else w))
      else w)"
  by pat_completeness auto
termination
  by (relation "measure (\<lambda>(ident, i, w). 8 - i)") auto

declare dump_id.simps [simp del]

text \<open>\<open>readButton\<close> (lines 176-197).\<close>

definition readButton :: "world \<Rightarrow> bool \<times> world" where
  "readButton w =
     (case onewire_bus w of
        NoPresence \<Rightarrow> (False, w)
      | NoDevice \<Rightarrow> (False, w)
      | Device ident \<Rightarrow>
          if crc8 w (take 7 ident) \<noteq> ident ! 7 then (False, w)
          else (True, Serial_println ''>'' (dump_id ident 0 (Serial_print ''<'' (led OFF w)))))"

text \<open>
  \<open>readSerial\<close> (lines 199-218): the \<open>while (Serial.available())\<close> loop takes one
  buffered byte per round and returns at the first \<open>E\<close>, \<open>D\<close> or \<open>P\<close>.
\<close>

function readSerial :: "world \<Rightarrow> Command \<times> world" where
  "readSerial w =
     (case rx w of
        [] \<Rightarrow> (NONE, w)
      | c # rest \<Rightarrow>
          if c = CHR ''E'' then (ENABLE, Serial_println ''ENABLED'' (w\<lparr>rx := rest\<rparr>))
          else if c = CHR ''D'' then (DISABLE, Serial_println ''DISABLED'' (w\<lparr>rx := rest\<rparr>))
          else if c = CHR ''P'' then (PING, Serial_println ''PONG'' (w\<lparr>rx := rest\<rparr>))
          else readSerial (w\<lparr>rx := rest\<rparr>))"
  by pat_completeness auto
termination
  by (relation "measure (\<lambda>w. length (rx w))") auto

declare readSerial.simps [simp del]

text \<open>
  \<open>loop\<close> (lines 95-161), cut at its comments into five steps that run in this order:
  the overflow guard (98-100), command intake with the watchdog refresh (104-121), the
  watchdog expiry (125-127), the iButton read (130-137) and the output drive (140-160).
\<close>

definition loop_overflow_guard :: "world \<Rightarrow> world" where
  "loop_overflow_guard w =
     (case millis w of (m, w1) \<Rightarrow> if m < lastcmd w1 then w1\<lparr>lastcmd := 0\<rparr> else w1)"

definition loop_command :: "world \<Rightarrow> world" where
  "loop_command w =
     (case readSerial w of (command, w1) \<Rightarrow>
        let w2 = (if command \<noteq> NONE
                  then (case millis w1 of (m, w') \<Rightarrow> w'\<lparr>lastcmd := m\<rparr>)
                  else w1)
        in (case command of
              ENABLE \<Rightarrow> w2\<lparr>state := ENABLED\<rparr>
            | DISABLE \<Rightarrow> w2\<lparr>state := DISABLED\<rparr>
            | NONE \<Rightarrow> w2
            | PING \<Rightarrow> w2))"

definition loop_expiry :: "world \<Rightarrow> world" where
  "loop_expiry w =
     (case interval_elapsed ABANDONED_TIME (lastcmd w) w of (expired, w1) \<Rightarrow>
        if expired then w1\<lparr>state := ABANDONED\<rparr> else w1)"

definition loop_ibutton :: "world \<Rightarrow> world" where
  "loop_ibutton w =
     (if state w \<noteq> ABANDONED
      then (case interval_elapsed BUTTON_INTERVAL_TIME (lastread w) w of (due, w1) \<Rightarrow>
              if due
              then (case readButton w1 of (ok, w2) \<Rightarrow>
                      if ok then (case millis w2 of (m, w3) \<Rightarrow> w3\<lparr>lastread := m\<rparr>) else w2)
              else w1)
      else w)"

definition loop_output :: "world \<Rightarrow> world" where
  "loop_output w =
     (case state w of
        ENABLED \<Rightarrow> led GREEN (digitalWrite PIN_RELAY HIGH w)
      | DISABLED \<Rightarrow> led YELLOW (digitalWrite PIN_RELAY LOW w)
      | ABANDONED \<Rightarrow>
          (let w1 = led RED (digitalWrite PIN_RELAY LOW w)
           in (case interval_elapsed ABANDONED_MSG_INTERVAL (lastmsg w1) w1 of (due, w2) \<Rightarrow>
                 if due
                 then (case millis (Serial_println ''ABANDONED'' w2) of (m, w3) \<Rightarrow> w3\<lparr>lastmsg := m\<rparr>)
                 else w2)))"

definition loop :: "world \<Rightarrow> world" where
  "loop w = loop_output (loop_ibutton (loop_expiry (loop_command (loop_overflow_guard w))))"

text \<open>
  The board after reset, before \<open>setup\<close>: the statics hold their initialisers
  (\<open>state\<close> is zero-initialised, the first enumerator), nothing has been sent and no
  pin is driven. \<open>setup_fn\<close> is \<open>setup\<close> (lines 80-93).
\<close>

definition power_on :: "(nat \<Rightarrow> ulong) \<Rightarrow> (byte list \<Rightarrow> byte) \<Rightarrow> world" where
  "power_on clk crc =
     \<lparr>state = ABANDONED, lastblink = 0, lastread = 0, lastcmd = 0, lastmsg = 0,
      clock = clk, calls = 0, rx = [], tx = [], onewire_bus = NoPresence, crc8 = crc,
      pin_relay = False, pin_led_green = False, pin_led_red = False\<rparr>"

definition setup_fn :: "world \<Rightarrow> world" where
  "setup_fn w = (Serial_println ''INIT'' (led YELLOW w))\<lparr>state := ABANDONED\<rparr>"

text \<open>
  Between two iterations the surroundings move on: bytes arrive on the serial line,
  the clock advances (\<open>ticks i k\<close> is the \<open>k\<close>-th reading of the coming iteration) and
  the bus may hold another device. \<open>run\<close> is the driver that calls \<open>loop\<close> forever,
  cut after the given iterations.
\<close>

record input =
  arrived :: string
  ticks :: "nat \<Rightarrow> ulong"
  present :: onewire

definition feed :: "input \<Rightarrow> world \<Rightarrow> world" where
  "feed i w = w\<lparr>rx := rx w @ arrived i, clock := ticks i, calls := 0, onewire_bus := present i\<rparr>"

fun run :: "input list \<Rightarrow> world \<Rightarrow> world" where
  "run [] w = w"
| "run (i # is) w = run is (loop (feed i w))"

section \<open>Definitions used to state the properties\<close>

text \<open>What lines 188-189 send for one byte of the identifier.\<close>

definition byte_text :: "byte \<Rightarrow> string" where
  "byte_text b = (if b < 16 then ''0'' else []) @ print_HEX (unat b)"

text \<open>
  The command channel as the specification words it: the bytes \<open>E\<close>, \<open>D\<close> and \<open>P\<close>
  are recognized, each stands for a command and each command has its acknowledgement;
  parsing drops unrecognized bytes up to the first recognized one, answers it, and
  leaves what follows in the buffer.
\<close>

definition recognized :: "char \<Rightarrow> bool" where
  "recognized c = (c = CHR ''E'' \<or> c = CHR ''D'' \<or> c = CHR ''P'')"

definition command_of :: "char \<Rightarrow> Command" where
  "command_of c =
     (if c = CHR ''E'' then ENABLE else if c = CHR ''D'' then DISABLE
      else if c = CHR ''P'' then PING else NONE)"

fun acknowledgement :: "Command \<Rightarrow> string" where
  "acknowledgement ENABLE = ''ENABLED''"
| "acknowledgement DISABLE = ''DISABLED''"
| "acknowledgement PING = ''PONG''"
| "acknowledgement NONE = []"

definition parse_spec :: "world \<Rightarrow> Command \<times> world" where
  "parse_spec w =
     (case dropWhile (\<lambda>c. \<not> recognized c) (rx w) of
        [] \<Rightarrow> (NONE, w\<lparr>rx := []\<rparr>)
      | c # rest \<Rightarrow>
          (command_of c,
           w\<lparr>rx := rest, tx := tx w @ acknowledgement (command_of c) @ line_break\<rparr>))"

text \<open>
  The identifier line as the specification words it: each byte as two upper-case
  hexadecimal digits, high digit first, the sixteen digits between \<open><\<close> and \<open>>\<close>, then
  a line break.
\<close>

definition hex_chars :: string where
  "hex_chars = ''0123456789ABCDEF''"

definition two_digit_hex :: "byte \<Rightarrow> string" where
  "two_digit_hex b = [hex_chars ! (unat b div 16), hex_chars ! (unat b mod 16)]"

definition id_line :: "byte list \<Rightarrow> string" where
  "id_line ident = ''<'' @ concat (map two_digit_hex ident) @ ''>'' @ line_break"

text \<open>
  What one iteration of \<open>loop\<close> that starts in \<open>w\<close> sees: \<open>received w\<close> is the
  command \<open>readSerial\<close> returns at line 104, \<open>expired w\<close> the value of the test of
  line 125, read after the command has been processed. \<open>commands\<close> lists the commands
  received in the iterations of a run.
\<close>

definition received :: "world \<Rightarrow> Command" where
  "received w = fst (readSerial (loop_overflow_guard w))"

definition expired :: "world \<Rightarrow> bool" where
  "expired w =
     fst (interval_elapsed ABANDONED_TIME
            (lastcmd (loop_command (loop_overflow_guard w)))
            (loop_command (loop_overflow_guard w)))"

fun commands :: "input list \<Rightarrow> world \<Rightarrow> Command list" where
  "commands [] w = []"
| "commands (i # is) w = received (feed i w) # commands is (loop (feed i w))"

text \<open>
  Example worlds and inputs for the closed instances below. \<open>demo_crc\<close> stands in for the
  driver's checksum there (the theorems hold for every checksum function):
  \<open>demo_id\<close> passes it and \<open>bad_id\<close> fails it. \<open>later t ident\<close> and \<open>ping_at t\<close> are
  inputs of an iteration that reads tick \<open>t\<close> at every call of \<open>millis()\<close>; in \<open>w_race\<close>
  the clock moves from 29999 to 30001 between the two calls of line 125.
\<close>

definition demo_crc :: "byte list \<Rightarrow> byte" where
  "demo_crc bs = sum_list bs"

definition demo_id :: "byte list" where
  "demo_id = [1, 2, 3, 4, 5, 6, 7, 28]"

definition bad_id :: "byte list" where
  "bad_id = [1, 2, 3, 4, 5, 6, 7, 0]"

definition later :: "ulong \<Rightarrow> byte list \<Rightarrow> input" where
  "later t ident = \<lparr>arrived = [], ticks = (\<lambda>k. t), present = Device ident\<rparr>"

definition ping_at :: "ulong \<Rightarrow> input" where
  "ping_at t = \<lparr>arrived = ''P'', ticks = (\<lambda>k. t), present = NoPresence\<rparr>"

definition w_boot :: world where
  "w_boot = setup_fn (power_on (\<lambda>k. 0) demo_crc)"

definition w_enable :: world where
  "w_enable = feed \<lparr>arrived = ''E'', ticks = (\<lambda>k. 100), present = NoPresence\<rparr> w_boot"

definition w_ready :: world where
  "w_ready = (power_on (\<lambda>k. 4000) demo_crc)\<lparr>state := ENABLED, onewire_bus := Device demo_id\<rparr>"

definition w_misread :: world where
  "w_misread = (power_on (\<lambda>k. 4000) demo_crc)\<lparr>state := ENABLED, onewire_bus := Device bad_id\<rparr>"

definition w_early :: world where
  "w_early = (power_on (\<lambda>k. 100) demo_crc)\<lparr>state := ENABLED, onewire_bus := Device demo_id\<rparr>"

definition w_bytes :: world where
  "w_bytes = (power_on (\<lambda>k. 100) demo_crc)\<lparr>rx := ''x?EyP''\<rparr>"

definition w_race :: world where
  "w_race = (power_on (\<lambda>k. if k < 3 then 29999 else 30001) demo_crc)
              \<lparr>state := DISABLED, lastcmd := 20000, rx := ''E''\<rparr>"

definition w_wrapped :: world where
  "w_wrapped = (power_on (\<lambda>k. 20000) demo_crc)\<lparr>state := ENABLED, lastcmd := 4294940000\<rparr>"

section \<open>What each function leaves unchanged\<close>

lemma millis_fields [simp]:
  "fst (millis w) = clock w (calls w)"
  "state (snd (millis w)) = state w"
  "lastblink (snd (millis w)) = lastblink w"
  "lastread (snd (millis w)) = lastread w"
  "lastcmd (snd (millis w)) = lastcmd w"
  "lastmsg (snd (millis w)) = lastmsg w"
  "clock (snd (millis w)) = clock w"
  "calls (snd (millis w)) = Suc (calls w)"
  "rx (snd (millis w)) = rx w"
  "tx (snd (millis w)) = tx w"
  "onewire_bus (snd (millis w)) = onewire_bus w"
  "crc8 (snd (millis w)) = crc8 w"
  "pin_relay (snd (millis w)) = pin_relay w"
  "pin_led_green (snd (millis w)) = pin_led_green w"
  "pin_led_red (snd (millis w)) = pin_led_red w"
  by (simp_all add: millis_def)

lemma interval_elapsed_fst:
  "fst (interval_elapsed D T w) = gate (clock w (calls w)) (clock w (Suc (calls w))) D T"
  by (simp add: interval_elapsed_def gate_def millis_def)

lemma interval_elapsed_fields [simp]:
  "state (snd (interval_elapsed D T w)) = state w"
  "lastblink (snd (interval_elapsed D T w)) = lastblink w"
  "lastread (snd (interval_elapsed D T w)) = lastread w"
  "lastcmd (snd (interval_elapsed D T w)) = lastcmd w"
  "lastmsg (snd (interval_elapsed D T w)) = lastmsg w"
  "clock (snd (interval_elapsed D T w)) = clock w"
  "rx (snd (interval_elapsed D T w)) = rx w"
  "tx (snd (interval_elapsed D T w)) = tx w"
  "onewire_bus (snd (interval_elapsed D T w)) = onewire_bus w"
  "crc8 (snd (interval_elapsed D T w)) = crc8 w"
  "pin_relay (snd (interval_elapsed D T w)) = pin_relay w"
  "pin_led_green (snd (interval_elapsed D T w)) = pin_led_green w"
  "pin_led_red (snd (interval_elapsed D T w)) = pin_led_red w"
  by (simp_all add: interval_elapsed_def millis_def)

lemma digitalWrite_fields [simp]:
  "state (digitalWrite p v w) = state w"
  "lastblink (digitalWrite p v w) = lastblink w"
  "lastread (digitalWrite p v w) = lastread w"
  "lastcmd (digitalWrite p v w) = lastcmd w"
  "lastmsg (digitalWrite p v w) = lastmsg w"
  "clock (digitalWrite p v w) = clock w"
  "calls (digitalWrite p v w) = calls w"
  "rx (digitalWrite p v w) = rx w"
  "tx (digitalWrite p v w) = tx w"
  "onewire_bus (digitalWrite p v w) = onewire_bus w"
  "crc8 (digitalWrite p v w) = crc8 w"
  by (cases p; simp)+

lemma led_fields [simp]:
  "state (led c w) = state w"
  "lastread (led c w) = lastread w"
  "lastcmd (led c w) = lastcmd w"
  "lastmsg (led c w) = lastmsg w"
  "clock (led c w) = clock w"
  "rx (led c w) = rx w"
  "tx (led c w) = tx w"
  "onewire_bus (led c w) = onewire_bus w"
  "crc8 (led c w) = crc8 w"
  "pin_relay (led c w) = pin_relay w"
  by (simp_all add: led_def Let_def case_prod_beta)

lemma Serial_print_fields [simp]:
  "state (Serial_print s w) = state w"
  "lastblink (Serial_print s w) = lastblink w"
  "lastread (Serial_print s w) = lastread w"
  "lastcmd (Serial_print s w) = lastcmd w"
  "lastmsg (Serial_print s w) = lastmsg w"
  "clock (Serial_print s w) = clock w"
  "calls (Serial_print s w) = calls w"
  "rx (Serial_print s w) = rx w"
  "tx (Serial_print s w) = tx w @ s"
  "onewire_bus (Serial_print s w) = onewire_bus w"
  "crc8 (Serial_print s w) = crc8 w"
  "pin_relay (Serial_print s w) = pin_relay w"
  "pin_led_green (Serial_print s w) = pin_led_green w"
  "pin_led_red (Serial_print s w) = pin_led_red w"
  by (simp_all add: Serial_print_def)

lemma Serial_println_eq: "Serial_println s w = Serial_print (s @ line_break) w"
  by (simp add: Serial_println_def Serial_print_def)

lemma Serial_print_twice: "Serial_print s (Serial_print t w) = Serial_print (t @ s) w"
  by (simp add: Serial_print_def)

lemma Serial_print_Nil: "Serial_print [] w = w"
  by (simp add: Serial_print_def)

lemma dump_id_eq:
  "dump_id ident i w = Serial_print (concat (map (\<lambda>k. byte_text (ident ! k)) [i..<8])) w"
proof (induction ident i w rule: dump_id.induct)
  case (1 ident i w)
  show ?case
  proof (cases "i < 8")
    case True
    then have "[i..<8] = i # [Suc i..<8]" by (simp add: upt_conv_Cons)
    with True 1 show ?thesis
      by (subst dump_id.simps)
        (simp add: Serial_print_HEX_def Serial_print_twice byte_text_def)
  next
    case False
    then show ?thesis by (subst dump_id.simps) (simp add: Serial_print_Nil)
  qed
qed

lemma readButton_fields [simp]:
  "state (snd (readButton w)) = state w"
  "lastread (snd (readButton w)) = lastread w"
  "lastcmd (snd (readButton w)) = lastcmd w"
  "lastmsg (snd (readButton w)) = lastmsg w"
  "clock (snd (readButton w)) = clock w"
  "rx (snd (readButton w)) = rx w"
  "onewire_bus (snd (readButton w)) = onewire_bus w"
  "crc8 (snd (readButton w)) = crc8 w"
  "pin_relay (snd (readButton w)) = pin_relay w"
  by (simp_all add: readButton_def dump_id_eq Serial_println_eq split: onewire.splits)

lemma readSerial_eq: "readSerial w = parse_spec w"
proof (induction w rule: readSerial.induct)
  case (1 w)
  show ?case
  proof (cases "rx w")
    case Nil
    then show ?thesis
      by (subst readSerial.simps) (simp add: parse_spec_def)
  next
    case (Cons c rest)
    show ?thesis
    proof (cases "recognized c")
      case True
      with Cons show ?thesis
        by (subst readSerial.simps)
          (auto simp: parse_spec_def recognized_def command_of_def Serial_println_def)
    next
      case False
      then have ne: "c \<noteq> CHR ''E''" "c \<noteq> CHR ''D''" "c \<noteq> CHR ''P''"
        by (simp_all add: recognized_def)
      have "readSerial w = readSerial (w\<lparr>rx := rest\<rparr>)"
        using Cons ne by (subst readSerial.simps) simp
      also have "\<dots> = parse_spec (w\<lparr>rx := rest\<rparr>)"
        using Cons ne by (intro 1) simp_all
      also have "\<dots> = parse_spec w"
        using Cons False
        by (cases "dropWhile (\<lambda>c. \<not> recognized c) rest")
          (simp_all add: parse_spec_def del: dropWhile_eq_Nil_conv)
      finally show ?thesis .
    qed
  qed
qed

lemma readSerial_fields [simp]:
  "state (snd (readSerial w)) = state w"
  "lastblink (snd (readSerial w)) = lastblink w"
  "lastread (snd (readSerial w)) = lastread w"
  "lastcmd (snd (readSerial w)) = lastcmd w"
  "lastmsg (snd (readSerial w)) = lastmsg w"
  "clock (snd (readSerial w)) = clock w"
  "calls (snd (readSerial w)) = calls w"
  "onewire_bus (snd (readSerial w)) = onewire_bus w"
  "crc8 (snd (readSerial w)) = crc8 w"
  "pin_relay (snd (readSerial w)) = pin_relay w"
  "pin_led_green (snd (readSerial w)) = pin_led_green w"
  "pin_led_red (snd (readSerial w)) = pin_led_red w"
  by (cases "dropWhile (\<lambda>c. \<not> recognized c) (rx w)";
      simp add: readSerial_eq parse_spec_def del: dropWhile_eq_Nil_conv)+

lemma readSerial_fst:
  "fst (readSerial w) =
     (case dropWhile (\<lambda>c. \<not> recognized c) (rx w) of [] \<Rightarrow> NONE | c # rest \<Rightarrow> command_of c)"
  by (cases "dropWhile (\<lambda>c. \<not> recognized c) (rx w)")
    (simp_all add: readSerial_eq parse_spec_def del: dropWhile_eq_Nil_conv)

lemma loop_overflow_guard_fields [simp]:
  "state (loop_overflow_guard w) = state w"
  "lastblink (loop_overflow_guard w) = lastblink w"
  "lastread (loop_overflow_guard w) = lastread w"
  "lastmsg (loop_overflow_guard w) = lastmsg w"
  "clock (loop_overflow_guard w) = clock w"
  "calls (loop_overflow_guard w) = Suc (calls w)"
  "rx (loop_overflow_guard w) = rx w"
  "tx (loop_overflow_guard w) = tx w"
  "onewire_bus (loop_overflow_guard w) = onewire_bus w"
  "crc8 (loop_overflow_guard w) = crc8 w"
  "pin_relay (loop_overflow_guard w) = pin_relay w"
  by (simp_all add: loop_overflow_guard_def case_prod_beta)

lemma loop_overflow_guard_lastcmd:
  "lastcmd (loop_overflow_guard w) = (if clock w (calls w) < lastcmd w then 0 else lastcmd w)"
  by (simp add: loop_overflow_guard_def case_prod_beta)

lemma loop_command_state:
  "state (loop_command w) =
     (case fst (readSerial w) of ENABLE \<Rightarrow> ENABLED | DISABLE \<Rightarrow> DISABLED
      | NONE \<Rightarrow> state w | PING \<Rightarrow> state w)"
  by (simp add: loop_command_def case_prod_beta Let_def split: Command.splits)

lemma loop_command_fields [simp]:
  "lastblink (loop_command w) = lastblink w"
  "lastread (loop_command w) = lastread w"
  "lastmsg (loop_command w) = lastmsg w"
  "clock (loop_command w) = clock w"
  "onewire_bus (loop_command w) = onewire_bus w"
  "crc8 (loop_command w) = crc8 w"
  "pin_relay (loop_command w) = pin_relay w"
  by (simp_all add: loop_command_def case_prod_beta Let_def split: Command.splits)

lemma loop_command_lastcmd:
  "lastcmd (loop_command w) =
     (if fst (readSerial w) = NONE then lastcmd w else clock w (calls w))"
  by (simp add: loop_command_def case_prod_beta Let_def split: Command.splits)

lemma loop_command_calls:
  "calls (loop_command w) = (if fst (readSerial w) = NONE then calls w else Suc (calls w))"
  by (simp add: loop_command_def case_prod_beta Let_def split: Command.splits)

lemma loop_expiry_state:
  "state (loop_expiry w) =
     (if fst (interval_elapsed ABANDONED_TIME (lastcmd w) w) then ABANDONED else state w)"
  by (simp add: loop_expiry_def case_prod_beta)

lemma loop_expiry_fields [simp]:
  "lastblink (loop_expiry w) = lastblink w"
  "lastread (loop_expiry w) = lastread w"
  "lastcmd (loop_expiry w) = lastcmd w"
  "lastmsg (loop_expiry w) = lastmsg w"
  "clock (loop_expiry w) = clock w"
  "rx (loop_expiry w) = rx w"
  "tx (loop_expiry w) = tx w"
  "onewire_bus (loop_expiry w) = onewire_bus w"
  "crc8 (loop_expiry w) = crc8 w"
  "pin_relay (loop_expiry w) = pin_relay w"
  by (simp_all add: loop_expiry_def case_prod_beta)

lemma loop_ibutton_fields [simp]:
  "state (loop_ibutton w) = state w"
  "lastcmd (loop_ibutton w) = lastcmd w"
  "lastmsg (loop_ibutton w) = lastmsg w"
  "clock (loop_ibutton w) = clock w"
  "rx (loop_ibutton w) = rx w"
  "onewire_bus (loop_ibutton w) = onewire_bus w"
  "crc8 (loop_ibutton w) = crc8 w"
  "pin_relay (loop_ibutton w) = pin_relay w"
  by (simp_all add: loop_ibutton_def case_prod_beta)

lemma loop_output_fields [simp]:
  "state (loop_output w) = state w"
  "lastread (loop_output w) = lastread w"
  "lastcmd (loop_output w) = lastcmd w"
  "clock (loop_output w) = clock w"
  "rx (loop_output w) = rx w"
  "onewire_bus (loop_output w) = onewire_bus w"
  "crc8 (loop_output w) = crc8 w"
  by (simp_all add: loop_output_def case_prod_beta Let_def Serial_println_eq split: State.splits)

lemma loop_output_relay: "pin_relay (loop_output w) = (state w = ENABLED)"
  by (simp add: loop_output_def case_prod_beta Let_def Serial_println_eq HIGH_def LOW_def
      split: State.splits)

lemma loop_state: "state (loop w) = state (loop_expiry (loop_command (loop_overflow_guard w)))"
  by (simp add: loop_def)

lemma loop_relay: "pin_relay (loop w) = (state (loop w) = ENABLED)"
  by (simp add: loop_def loop_output_relay)

lemma run_relay:
  "pin_relay w = (state w = ENABLED) \<Longrightarrow> pin_relay (run ins w) = (state (run ins w) = ENABLED)"
  by (induction ins arbitrary: w) (simp_all add: loop_relay)

lemma setup_fn_relay: "pin_relay (setup_fn (power_on clk crc)) = False"
  "state (setup_fn (power_on clk crc)) = ABANDONED"
  by (simp_all add: setup_fn_def power_on_def Serial_println_eq)

section \<open>The relay follows the state\<close>

text \<open>
  C1. In every iteration, from any world, the level written to the relay pin is high
  exactly when the state is \<open>ENABLED\<close> after the watchdog expiry of that same
  iteration; the state does not change after the expiry step; in the \<open>DISABLED\<close> and
  \<open>ABANDONED\<close> branches the relay is low. Hence after \<open>setup\<close> and any sequence of
  iterations, whatever bytes, ticks and bus readings they see, the relay is high
  exactly when the state is \<open>ENABLED\<close>.
\<close>

theorem relay_on_iff_enabled:
  "pin_relay (loop w) = (state (loop_expiry (loop_command (loop_overflow_guard w))) = ENABLED)
   \<and> state (loop w) = state (loop_expiry (loop_command (loop_overflow_guard w)))
   \<and> pin_relay (loop w) = (case state (loop w) of ENABLED \<Rightarrow> True | DISABLED \<Rightarrow> False | ABANDONED \<Rightarrow> False)
   \<and> pin_relay (run ins (setup_fn (power_on clk crc)))
       = (state (run ins (setup_fn (power_on clk crc))) = ENABLED)"
proof -
  have "pin_relay (loop w) = (state (loop w) = ENABLED)" by (rule loop_relay)
  moreover have "state (loop w) = state (loop_expiry (loop_command (loop_overflow_guard w)))"
    by (rule loop_state)
  moreover have "pin_relay (run ins (setup_fn (power_on clk crc)))
       = (state (run ins (setup_fn (power_on clk crc))) = ENABLED)"
    by (rule run_relay) (simp add: setup_fn_relay)
  ultimately show ?thesis by (simp split: State.splits)
qed

lemma w_enable_fields:
  "rx w_enable = ''E''" "clock w_enable = (\<lambda>k. 100)" "calls w_enable = 0"
  "lastcmd w_enable = 0" "state w_enable = ABANDONED"
  by (simp_all add: w_enable_def w_boot_def feed_def setup_fn_def power_on_def Serial_println_eq)

lemma w_enable_state:
  "state (loop_expiry (loop_command (loop_overflow_guard w_enable))) = ENABLED"
  by (simp add: loop_expiry_state interval_elapsed_fst gate_def loop_command_state
      loop_command_lastcmd loop_command_calls loop_overflow_guard_lastcmd
      readSerial_fst w_enable_fields recognized_def command_of_def ABANDONED_TIME_def)

theorem relay_on_iff_enabled_witness:
  "pin_relay (loop w_enable) \<and> state (loop w_enable) = ENABLED"
  using relay_on_iff_enabled [of w_enable] w_enable_state by simp

section \<open>Hexadecimal output and the iButton read\<close>

lemma hex_digit_eq: "c < 16 \<Longrightarrow> hex_digit c = hex_chars ! c"
proof -
  assume "c < 16"
  then have "c \<in> {0, 1, 2, 3, 4, 5, 6, 7, 8, 9, 10, 11, 12, 13, 14, 15}" by simp arith
  then show ?thesis
    by (auto simp: hex_digit_def hex_chars_def char_of_def bit_iff_odd)
qed

lemma byte_text_eq: "byte_text b = two_digit_hex b"
proof (cases "b < 16")
  case True
  then have "unat b < 16" by (simp add: word_less_nat_alt)
  with True show ?thesis
    by (subst byte_text_def, subst print_HEX.simps)
      (simp add: two_digit_hex_def hex_digit_eq hex_chars_def)
next
  case False
  then have ge: "\<not> unat b < 16" by (simp add: word_less_nat_alt)
  have "unat b < 256" using unsigned_less [of b] by simp
  then have lt: "unat b div 16 < 16" by simp
  have "print_HEX (unat b) = print_HEX (unat b div 16) @ [hex_digit (unat b mod 16)]"
    using ge by (subst print_HEX.simps) simp
  also have "print_HEX (unat b div 16) = [hex_digit (unat b div 16)]"
    using lt by (subst print_HEX.simps) simp
  finally show ?thesis
    using False lt by (simp add: byte_text_def two_digit_hex_def hex_digit_eq)
qed

lemma dump_id_all:
  "length ident = 8 \<Longrightarrow> dump_id ident 0 w = Serial_print (concat (map two_digit_hex ident)) w"
proof -
  assume len: "length ident = 8"
  have "map (\<lambda>k. byte_text (ident ! k)) [0..<8] = map byte_text (map ((!) ident) [0..<length ident])"
    by (simp add: len)
  also have "\<dots> = map two_digit_hex ident"
    by (simp only: map_nth) (simp add: byte_text_eq)
  finally show ?thesis by (simp add: dump_id_eq)
qed

lemma readButton_valid:
  assumes "onewire_bus w = Device ident" "length ident = 8" "crc8 w (take 7 ident) = ident ! 7"
  shows "fst (readButton w) = True" "tx (snd (readButton w)) = tx w @ id_line ident"
  using assms
  by (simp_all add: readButton_def dump_id_all Serial_println_eq id_line_def)

lemma readButton_invalid:
  assumes "onewire_bus w = Device ident" "crc8 w (take 7 ident) \<noteq> ident ! 7"
  shows "readButton w = (False, w)"
  using assms by (simp add: readButton_def)

section \<open>The interval test\<close>

lemma gate_nat: "gate now now D T = (unat T + unat D < unat now)"
proof (cases "D < now")
  case True
  then have "D \<le> now" by simp
  then have "unat (now - D) = unat now - unat D" by (rule unat_sub)
  moreover from True have "unat D < unat now" by (simp add: word_less_nat_alt)
  ultimately show ?thesis
    using True by (auto simp: gate_def word_less_nat_alt)
next
  case False
  then have "\<not> unat D < unat now" by (simp add: word_less_nat_alt)
  with False show ?thesis by (simp add: gate_def)
qed

lemma gate_no_wrap: "T \<le> now \<Longrightarrow> gate now now D T = (D < now - T)"
proof -
  assume le: "T \<le> now"
  then have "unat (now - T) = unat now - unat T" by (rule unat_sub)
  moreover from le have "unat T \<le> unat now" by (simp add: word_le_nat_alt)
  ultimately show ?thesis
    by (auto simp: gate_nat word_less_nat_alt)
qed

lemma gate_wrapped: "now < T \<Longrightarrow> \<not> gate now now D T"
  by (simp add: gate_nat word_less_nat_alt)

lemma gate_needs_second: "\<not> D < m2 \<Longrightarrow> \<not> gate m1 m2 D T"
  by (simp add: gate_def)

lemma interval_elapsed_steady:
  "clock w = (\<lambda>k. t) \<Longrightarrow> fst (interval_elapsed D T w) = (unat T + unat D < unat t)"
  by (simp add: interval_elapsed_fst gate_nat)

lemma interval_elapsed_early:
  "\<forall>k. clock w k \<le> D \<Longrightarrow> fst (interval_elapsed D T w) = False"
  by (simp add: interval_elapsed_fst gate_def not_less [symmetric])

lemma interval_elapsed_snd:
  "snd (interval_elapsed D T w) = w\<lparr>calls := calls (snd (interval_elapsed D T w))\<rparr>"
  by (simp add: interval_elapsed_def millis_def)

section \<open>The steps of the loop\<close>

lemma feed_fields [simp]:
  "state (feed i w) = state w"
  "lastblink (feed i w) = lastblink w"
  "lastread (feed i w) = lastread w"
  "lastcmd (feed i w) = lastcmd w"
  "lastmsg (feed i w) = lastmsg w"
  "clock (feed i w) = ticks i"
  "calls (feed i w) = 0"
  "rx (feed i w) = rx w @ arrived i"
  "tx (feed i w) = tx w"
  "onewire_bus (feed i w) = present i"
  "crc8 (feed i w) = crc8 w"
  "pin_relay (feed i w) = pin_relay w"
  by (simp_all add: feed_def)

lemma loop_ibutton_closed:
  "\<not> fst (interval_elapsed BUTTON_INTERVAL_TIME (lastread w) w) \<Longrightarrow>
   tx (loop_ibutton w) = tx w \<and> lastread (loop_ibutton w) = lastread w"
  by (simp add: loop_ibutton_def case_prod_beta)

lemma loop_ibutton_open:
  assumes "state w \<noteq> ABANDONED"
    and "fst (interval_elapsed BUTTON_INTERVAL_TIME (lastread w) w)"
    and "onewire_bus w = Device ident" and "length ident = 8"
    and "crc8 w (take 7 ident) = ident ! 7"
  shows "tx (loop_ibutton w) = tx w @ id_line ident"
    and "lastread (loop_ibutton w)
         = clock w (calls (snd (readButton (snd (interval_elapsed BUTTON_INTERVAL_TIME (lastread w) w)))))"
proof -
  let ?w1 = "snd (interval_elapsed BUTTON_INTERVAL_TIME (lastread w) w)"
  have ok: "fst (readButton ?w1) = True" and out: "tx (snd (readButton ?w1)) = tx ?w1 @ id_line ident"
    using assms by (simp_all add: readButton_valid)
  show "tx (loop_ibutton w) = tx w @ id_line ident"
    using assms(1,2) ok out by (simp add: loop_ibutton_def case_prod_beta)
  show "lastread (loop_ibutton w) = clock w (calls (snd (readButton ?w1)))"
    using assms(1,2) ok by (simp add: loop_ibutton_def case_prod_beta)
qed

lemma loop_ibutton_steady:
  assumes "state w \<noteq> ABANDONED" and "clock w = (\<lambda>k. t)"
    and "onewire_bus w = Device ident" and "length ident = 8"
    and "crc8 w (take 7 ident) = ident ! 7"
  shows "tx (loop_ibutton w)
         = tx w @ (if unat (lastread w) + 3000 < unat t then id_line ident else [])"
    and "lastread (loop_ibutton w)
         = (if unat (lastread w) + 3000 < unat t then t else lastread w)"
proof -
  have g: "fst (interval_elapsed BUTTON_INTERVAL_TIME (lastread w) w)
           = (unat (lastread w) + 3000 < unat t)"
    using assms(2) by (simp add: interval_elapsed_steady BUTTON_INTERVAL_TIME_def)
  show "tx (loop_ibutton w)
         = tx w @ (if unat (lastread w) + 3000 < unat t then id_line ident else [])"
  proof (cases "unat (lastread w) + 3000 < unat t")
    case True
    with g assms loop_ibutton_open(1) [of w ident] show ?thesis by simp
  next
    case False
    with g loop_ibutton_closed [of w] show ?thesis by simp
  qed
  show "lastread (loop_ibutton w)
         = (if unat (lastread w) + 3000 < unat t then t else lastread w)"
  proof (cases "unat (lastread w) + 3000 < unat t")
    case True
    with g assms loop_ibutton_open(2) [of w ident] show ?thesis by simp
  next
    case False
    with g loop_ibutton_closed [of w] show ?thesis by simp
  qed
qed

lemma loop_ibutton_invalid:
  assumes "onewire_bus w = Device ident" and "crc8 w (take 7 ident) \<noteq> ident ! 7"
  shows "loop_ibutton w = w\<lparr>calls := calls (loop_ibutton w)\<rparr>"
proof -
  let ?w1 = "snd (interval_elapsed BUTTON_INTERVAL_TIME (lastread w) w)"
  have "readButton ?w1 = (False, ?w1)"
    using assms by (intro readButton_invalid) simp_all
  then have "loop_ibutton w = w \<or> loop_ibutton w = ?w1"
    by (simp add: loop_ibutton_def case_prod_beta)
  then show ?thesis
  proof
    assume "loop_ibutton w = w"
    then show ?thesis by simp
  next
    assume "loop_ibutton w = ?w1"
    then show ?thesis using interval_elapsed_snd [of BUTTON_INTERVAL_TIME "lastread w" w] by simp
  qed
qed

lemma loop_output_quiet:
  "\<forall>k. clock w k \<le> ABANDONED_MSG_INTERVAL \<Longrightarrow>
   tx (loop_output w) = tx w \<and> lastmsg (loop_output w) = lastmsg w"
  by (simp add: loop_output_def Let_def case_prod_beta interval_elapsed_early split: State.split)

lemma rx_loop_command: "rx (loop_command w) = rx (snd (readSerial w))"
  "tx (loop_command w) = tx (snd (readSerial w))"
  by (simp_all add: loop_command_def case_prod_beta Let_def split: Command.splits)

lemma rx_loop: "rx (loop w) = rx (snd (readSerial (loop_overflow_guard w)))"
  by (simp add: loop_def rx_loop_command)

lemma loop_state_eq:
  "state (loop w) =
     (if expired w then ABANDONED
      else (case received w of ENABLE \<Rightarrow> ENABLED | DISABLE \<Rightarrow> DISABLED
            | NONE \<Rightarrow> state w | PING \<Rightarrow> state w))"
  by (simp add: loop_state loop_expiry_state loop_command_state expired_def received_def
      split: Command.split)

lemma loop_lastcmd:
  "lastcmd (loop w) =
     (if received w = NONE then (if clock w (calls w) < lastcmd w then 0 else lastcmd w)
      else clock w (Suc (calls w)))"
  by (simp add: loop_def loop_command_lastcmd loop_overflow_guard_lastcmd received_def)

lemma expired_eq:
  "expired w =
     gate (clock w (calls (loop_command (loop_overflow_guard w))))
          (clock w (Suc (calls (loop_command (loop_overflow_guard w)))))
          ABANDONED_TIME (lastcmd (loop_command (loop_overflow_guard w)))"
  by (simp add: expired_def interval_elapsed_fst)

lemma expired_early: "\<forall>k. clock w k \<le> ABANDONED_TIME \<Longrightarrow> \<not> expired w"
  by (simp add: expired_eq gate_def not_less [symmetric])

lemma expired_steady:
  "clock w = (\<lambda>k. t) \<Longrightarrow>
   expired w = (received w = NONE \<and>
                unat (if t < lastcmd w then 0 else lastcmd w) + 30000 < unat t)"
  by (simp add: expired_eq gate_nat loop_command_lastcmd loop_overflow_guard_lastcmd
      received_def ABANDONED_TIME_def)

lemma loop_keeps_abandoned:
  "state w = ABANDONED \<Longrightarrow> received w = PING \<or> received w = NONE \<Longrightarrow> state (loop w) = ABANDONED"
  by (auto simp: loop_state_eq)

lemma run_keeps_abandoned:
  "state w = ABANDONED \<Longrightarrow> list_all (\<lambda>c. c = PING \<or> c = NONE) (commands ins w) \<Longrightarrow>
   state (run (take n ins) w) = ABANDONED"
proof (induction ins arbitrary: w n)
  case Nil
  then show ?case by simp
next
  case (Cons i ins)
  show ?case
  proof (cases n)
    case 0
    with Cons.prems show ?thesis by simp
  next
    case (Suc m)
    from Cons.prems have "state (loop (feed i w)) = ABANDONED"
      by (intro loop_keeps_abandoned) simp_all
    moreover from Cons.prems
    have "list_all (\<lambda>c. c = PING \<or> c = NONE) (commands ins (loop (feed i w)))" by simp
    ultimately have "state (run (take m ins) (loop (feed i w))) = ABANDONED"
      by (rule Cons.IH)
    with Suc show ?thesis by simp
  qed
qed

section \<open>The example worlds\<close>

lemma demo_id_line: "id_line demo_id = ''<010203040506071C>'' @ line_break"
  by (simp add: id_line_def demo_id_def two_digit_hex_def hex_chars_def)

lemma demo_id_valid: "length demo_id = 8" "demo_crc (take 7 demo_id) = demo_id ! 7"
  by (simp_all add: demo_id_def demo_crc_def)

lemma bad_id_invalid: "demo_crc (take 7 bad_id) \<noteq> bad_id ! 7"
  by (simp add: bad_id_def demo_crc_def)

lemma w_ready_fields:
  "state w_ready = ENABLED" "clock w_ready = (\<lambda>k. 4000)" "onewire_bus w_ready = Device demo_id"
  "crc8 w_ready = demo_crc" "lastread w_ready = 0" "tx w_ready = []" "calls w_ready = 0"
  by (simp_all add: w_ready_def power_on_def)

lemma w_misread_fields:
  "state w_misread = ENABLED" "clock w_misread = (\<lambda>k. 4000)" "onewire_bus w_misread = Device bad_id"
  "crc8 w_misread = demo_crc" "lastread w_misread = 0" "tx w_misread = []" "calls w_misread = 0"
  by (simp_all add: w_misread_def power_on_def)

lemma w_boot_fields: "state w_boot = ABANDONED" "rx w_boot = []" "lastcmd w_boot = 0"
  by (simp_all add: w_boot_def setup_fn_def power_on_def Serial_println_eq)

lemma received_ping:
  "rx w = [] \<Longrightarrow> received (feed (ping_at t) w) = PING \<and> rx (loop (feed (ping_at t) w)) = []"
  by (simp add: received_def readSerial_fst rx_loop readSerial_eq parse_spec_def ping_at_def
      recognized_def command_of_def)

section \<open>Watchdog\<close>

text \<open>
  C2. When an iteration receives \<open>ENABLE\<close> and the expiry test of line 125, evaluated
  after the command has been processed, holds in that same iteration, the iteration ends
  in state \<open>ABANDONED\<close> with the relay low.
\<close>

theorem expiry_overrides_enable:
  assumes "received w = ENABLE" and "expired w"
  shows "state (loop w) = ABANDONED \<and> \<not> pin_relay (loop w)"
  using assms by (simp add: loop_relay loop_state_eq)

theorem expiry_overrides_enable_witness:
  "received w_race = ENABLE \<and> expired w_race \<and> state (loop w_race) = ABANDONED
   \<and> \<not> pin_relay (loop w_race)"
proof -
  have r: "received w_race = ENABLE"
    by (simp add: received_def readSerial_fst w_race_def power_on_def recognized_def command_of_def)
  have e: "expired w_race"
    using r
    by (simp add: expired_eq gate_def loop_command_lastcmd loop_command_calls received_def
        ABANDONED_TIME_def w_race_def power_on_def)
  from expiry_overrides_enable [OF r e] r e show ?thesis by simp
qed

text \<open>
  C3. From state \<open>ABANDONED\<close>, a run in which every iteration receives \<open>PING\<close> or no
  command stays in \<open>ABANDONED\<close> after each of its iterations; an iteration that leaves
  \<open>ABANDONED\<close> has received \<open>ENABLE\<close> or \<open>DISABLE\<close>; and a \<open>PING\<close> records the tick
  read at line 108 in \<open>lastcmd\<close>.
\<close>

theorem ping_does_not_rescue:
  "(state w = ABANDONED \<and> list_all (\<lambda>c. c = PING \<or> c = NONE) (commands ins w) \<longrightarrow>
      (\<forall>n. state (run (take n ins) w) = ABANDONED) \<and> state (run ins w) = ABANDONED)
   \<and> (state w = ABANDONED \<and> state (loop w) \<noteq> ABANDONED \<longrightarrow>
        received w = ENABLE \<or> received w = DISABLE)
   \<and> (received w = PING \<longrightarrow> lastcmd (loop w) = clock w (Suc (calls w)))"
proof -
  have a: "state (run (take n ins) w) = ABANDONED"
    if "state w = ABANDONED" "list_all (\<lambda>c. c = PING \<or> c = NONE) (commands ins w)" for n
    using that by (rule run_keeps_abandoned)
  have b: "state (run ins w) = ABANDONED"
    if "state w = ABANDONED" "list_all (\<lambda>c. c = PING \<or> c = NONE) (commands ins w)"
    using a [OF that, of "length ins"] by simp
  have c: "received w = ENABLE \<or> received w = DISABLE"
    if "state w = ABANDONED" "state (loop w) \<noteq> ABANDONED"
    using that by (cases "received w") (auto simp: loop_state_eq split: if_splits)
  have d: "lastcmd (loop w) = clock w (Suc (calls w))" if "received w = PING"
    using that by (simp add: loop_lastcmd)
  from a b c d show ?thesis by blast
qed

theorem ping_does_not_rescue_witness:
  "commands [ping_at 100, ping_at 40000] w_boot = [PING, PING]
   \<and> state (run [ping_at 100, ping_at 40000] w_boot) = ABANDONED
   \<and> lastcmd (loop (feed (ping_at 100) w_boot)) = 100
   \<and> state w_enable = ABANDONED \<and> state (loop w_enable) = ENABLED \<and> received w_enable = ENABLE"
proof -
  have c: "commands [ping_at 100, ping_at 40000] w_boot = [PING, PING]"
    by (simp add: received_ping w_boot_fields)
  have p: "received (feed (ping_at 100) w_boot) = PING"
    by (simp add: received_ping w_boot_fields)
  have t: "clock (feed (ping_at 100) w_boot) (Suc (calls (feed (ping_at 100) w_boot))) = 100"
    by (simp add: ping_at_def)
  have e: "state (loop w_enable) = ENABLED"
    using w_enable_state by (simp add: loop_state)
  have r: "received w_enable = ENABLE"
    by (simp add: received_def readSerial_fst w_enable_fields recognized_def command_of_def)
  have "state (run [ping_at 100, ping_at 40000] w_boot) = ABANDONED"
    using ping_does_not_rescue [of w_boot "[ping_at 100, ping_at 40000]"] c
    by (simp add: w_boot_fields)
  moreover have "lastcmd (loop (feed (ping_at 100) w_boot)) = 100"
    using ping_does_not_rescue [of "feed (ping_at 100) w_boot" "[]"] p t by simp
  ultimately show ?thesis using c e r by (simp add: w_enable_fields)
qed

text \<open>
  C10. The guard of lines 98-100 sets \<open>lastcmd\<close> to 0 when the tick it reads is below
  \<open>lastcmd\<close>. While every tick read is at most \<open>ABANDONED_TIME\<close> the expiry test fails, so
  the state is the one command processing left, whatever \<open>lastcmd\<close> held. After a
  detected wrap with no command, at a tick \<open>t\<close> read throughout the iteration, \<open>lastcmd\<close>
  is 0 and the state is forced to \<open>ABANDONED\<close> exactly when \<open>t\<close> exceeds
  \<open>ABANDONED_TIME\<close>.
\<close>

theorem overflow_guard_delays_expiry:
  "(clock w (calls w) < lastcmd w \<longrightarrow> lastcmd (loop_overflow_guard w) = 0)
   \<and> ((\<forall>k. clock w k \<le> ABANDONED_TIME) \<longrightarrow>
         \<not> expired w \<and> state (loop w) = state (loop_command (loop_overflow_guard w)))
   \<and> (clock w = (\<lambda>k. t) \<and> t < lastcmd w \<and> received w = NONE \<longrightarrow>
         lastcmd (loop w) = 0
         \<and> state (loop w) = (if ABANDONED_TIME < t then ABANDONED else state w))"
proof -
  have a: "lastcmd (loop_overflow_guard w) = 0" if "clock w (calls w) < lastcmd w"
    using that by (simp add: loop_overflow_guard_lastcmd)
  have b: "\<not> expired w \<and> state (loop w) = state (loop_command (loop_overflow_guard w))"
    if "\<forall>k. clock w k \<le> ABANDONED_TIME"
    using expired_early [OF that]
    by (simp add: loop_state loop_expiry_state expired_def)
  have c: "lastcmd (loop w) = 0
         \<and> state (loop w) = (if ABANDONED_TIME < t then ABANDONED else state w)"
    if "clock w = (\<lambda>k. t)" "t < lastcmd w" "received w = NONE"
    using that
    by (simp add: loop_lastcmd loop_state_eq expired_steady word_less_nat_alt ABANDONED_TIME_def)
  from a b c show ?thesis by blast
qed

theorem overflow_guard_delays_expiry_witness:
  "unat (20000 - lastcmd w_wrapped) = 47296
   \<and> lastcmd (loop_overflow_guard w_wrapped) = 0
   \<and> lastcmd (loop w_wrapped) = 0
   \<and> state (loop w_wrapped) = ENABLED"
proof -
  have f: "clock w_wrapped = (\<lambda>k. 20000)" "lastcmd w_wrapped = 4294940000"
    "state w_wrapped = ENABLED" "rx w_wrapped = []" "calls w_wrapped = 0"
    by (simp_all add: w_wrapped_def power_on_def)
  have r: "received w_wrapped = NONE"
    by (simp add: received_def readSerial_fst f)
  from overflow_guard_delays_expiry [of w_wrapped 20000] f r show ?thesis
    by (simp add: ABANDONED_TIME_def loop_command_state received_def [symmetric])
qed

section \<open>The interval test and the counter wrap\<close>

text \<open>
  C4, as claimed, fails: with the timestamp 1000 ticks before the wrap and the clock at
  5000 the modular distance is 6000, above the interval 3000, and the test is false.
\<close>

theorem interval_gate_counterexample:
  "unat ((5000::ulong) - 4294966296) = 6000
   \<and> (3000::ulong) < 5000 - 4294966296
   \<and> \<not> gate 5000 5000 3000 4294966296"
  by (simp add: gate_def)

text \<open>
  C4. (amended) With one tick \<open>now\<close> read by both calls, the test holds exactly when
  \<open>T + D < now\<close> as unbounded numbers. When \<open>T \<le> now\<close> the elapsed time
  \<open>(now - T) mod 2^32\<close> is \<open>now - T\<close> and the test holds exactly when it exceeds \<open>D\<close>;
  when \<open>now < T\<close> the test is false. \<open>interval_elapsed\<close>, used by the watchdog, the read
  gate and the beacon, is this test on the two ticks it reads.
\<close>

theorem interval_gate_fires_iff:
  "gate now now D T = (unat T + unat D < unat now)
   \<and> (T \<le> now \<longrightarrow> unat (now - T) = unat now - unat T \<and> gate now now D T = (D < now - T))
   \<and> (now < T \<longrightarrow> \<not> gate now now D T)
   \<and> fst (interval_elapsed D T w) = gate (clock w (calls w)) (clock w (Suc (calls w))) D T"
proof -
  have a: "gate now now D T = (unat T + unat D < unat now)" by (rule gate_nat)
  have b: "unat (now - T) = unat now - unat T \<and> gate now now D T = (D < now - T)"
    if "T \<le> now"
    using that by (simp add: unat_sub gate_no_wrap)
  have c: "\<not> gate now now D T" if "now < T"
    using that by (rule gate_wrapped)
  have d: "fst (interval_elapsed D T w) = gate (clock w (calls w)) (clock w (Suc (calls w))) D T"
    by (rule interval_elapsed_fst)
  from a b c d show ?thesis by blast
qed

theorem interval_gate_fires_iff_witness:
  "gate 7001 7001 3000 4000 \<and> (3000::ulong) < 7001 - 4000
   \<and> \<not> gate 7000 7000 3000 4000
   \<and> \<not> gate 5000 5000 3000 4294966296"
  using interval_gate_fires_iff [of 7001 3000 4000] interval_gate_fires_iff [of 7000 3000 4000]
    interval_gate_fires_iff [of 5000 3000 4294966296]
  by simp

text \<open>
  C5. The test is false whenever the tick of its second reading does not exceed \<open>D\<close>, for
  the timestamp 0 as for any other, and it holds only when both comparisons hold. So
  while every tick read is at most \<open>BUTTON_INTERVAL_TIME\<close> the read step sends nothing and
  keeps \<open>lastread\<close>, and while every tick read is at most \<open>ABANDONED_MSG_INTERVAL\<close> the
  output step sends no beacon and keeps \<open>lastmsg\<close>.
\<close>

theorem interval_gate_startup_guard:
  "(\<not> D < m2 \<longrightarrow> \<not> gate m1 m2 D T)
   \<and> (gate m1 m2 D T \<longrightarrow> T < m1 - D \<and> D < m2)
   \<and> ((\<forall>k. clock w k \<le> D) \<longrightarrow> \<not> fst (interval_elapsed D 0 w))
   \<and> ((\<forall>k. clock w k \<le> BUTTON_INTERVAL_TIME) \<longrightarrow>
        tx (loop_ibutton w) = tx w \<and> lastread (loop_ibutton w) = lastread w)
   \<and> ((\<forall>k. clock w k \<le> ABANDONED_MSG_INTERVAL) \<longrightarrow>
        tx (loop_output w) = tx w \<and> lastmsg (loop_output w) = lastmsg w)"
proof -
  have a: "\<not> gate m1 m2 D T" if "\<not> D < m2" using that by (rule gate_needs_second)
  have b: "T < m1 - D \<and> D < m2" if "gate m1 m2 D T" using that by (simp add: gate_def)
  have c: "\<not> fst (interval_elapsed D 0 w)" if "\<forall>k. clock w k \<le> D"
    using that by (simp add: interval_elapsed_early)
  have d: "tx (loop_ibutton w) = tx w \<and> lastread (loop_ibutton w) = lastread w"
    if "\<forall>k. clock w k \<le> BUTTON_INTERVAL_TIME"
    using that by (intro loop_ibutton_closed) (simp add: interval_elapsed_early)
  have e: "tx (loop_output w) = tx w \<and> lastmsg (loop_output w) = lastmsg w"
    if "\<forall>k. clock w k \<le> ABANDONED_MSG_INTERVAL"
    using that by (rule loop_output_quiet)
  from a b c d e show ?thesis by blast
qed

theorem interval_gate_startup_guard_witness:
  "unat ((100::ulong) - 3000) = 4294964396 \<and> \<not> gate 100 100 3000 0
   \<and> gate 3001 3001 3000 0
   \<and> \<not> fst (interval_elapsed 3000 0 w_early)
   \<and> tx (loop_ibutton w_early) = [] \<and> lastread (loop_ibutton w_early) = 0
   \<and> tx (loop_output (w_early\<lparr>state := ABANDONED\<rparr>)) = []
   \<and> lastmsg (loop_output (w_early\<lparr>state := ABANDONED\<rparr>)) = 0"
  using interval_gate_startup_guard [of 3000 100 100 0 w_early]
    interval_gate_startup_guard [of 3000 3001 3001 0 w_early]
    interval_gate_startup_guard [of 3000 100 100 0 "w_early\<lparr>state := ABANDONED\<rparr>"]
  by (simp add: w_early_def power_on_def BUTTON_INTERVAL_TIME_def ABANDONED_MSG_INTERVAL_def
      gate_def)

section \<open>Reading iButtons\<close>

text \<open>
  C6, as claimed, fails: a valid read at tick 4000 and a second one at tick 7000,
  \<open>BUTTON_INTERVAL_TIME\<close> later, send one identifier line, not two.
\<close>

theorem debounce_counterexample:
  "tx (loop_ibutton w_ready) = ''<010203040506071C>'' @ line_break
   \<and> lastread (loop_ibutton w_ready) = 4000
   \<and> BUTTON_INTERVAL_TIME \<le> 7000 - 4000
   \<and> tx (loop_ibutton (feed (later 7000 demo_id) (loop_ibutton w_ready)))
       = ''<010203040506071C>'' @ line_break"
proof -
  have 1: "tx (loop_ibutton w_ready) = ''<010203040506071C>'' @ line_break"
    and 2: "lastread (loop_ibutton w_ready) = 4000"
    using loop_ibutton_steady [of w_ready 4000 demo_id]
    by (simp_all add: w_ready_fields demo_id_valid demo_id_line)
  have "tx (loop_ibutton (feed (later 7000 demo_id) (loop_ibutton w_ready)))
        = tx (loop_ibutton w_ready)"
    using loop_ibutton_steady(1) [of "feed (later 7000 demo_id) (loop_ibutton w_ready)" 7000 demo_id]
    by (simp add: 2 later_def w_ready_fields demo_id_valid)
  with 1 2 show ?thesis by (simp add: BUTTON_INTERVAL_TIME_def)
qed

text \<open>
  C6. (amended) In a state other than \<open>ABANDONED\<close>, let a valid identifier be read at tick
  \<open>t1\<close> and a valid identifier be on the bus in a later iteration at tick \<open>t2\<close>. The first
  read sends its line and sets \<open>lastread\<close> to \<open>t1\<close>. The second is attempted exactly when
  \<open>t1 + 3000 < t2\<close> as unbounded numbers, and then sends its line and sets \<open>lastread\<close> to
  \<open>t2\<close>: for \<open>t1 \<le> t2\<close>, a distance of at most \<open>BUTTON_INTERVAL_TIME\<close> gives one line and a
  distance above it gives two.
\<close>

theorem debounce_two_reads:
  assumes "state w \<noteq> ABANDONED"
    and "clock w = (\<lambda>k. t1)"
    and "onewire_bus w = Device id1" and "length id1 = 8" and "crc8 w (take 7 id1) = id1 ! 7"
    and "unat (lastread w) + 3000 < unat t1"
    and "length id2 = 8" and "crc8 w (take 7 id2) = id2 ! 7"
  shows "tx (loop_ibutton w) = tx w @ id_line id1
    \<and> lastread (loop_ibutton w) = t1
    \<and> tx (loop_ibutton (feed (later t2 id2) (loop_ibutton w)))
        = tx w @ id_line id1 @ (if unat t1 + 3000 < unat t2 then id_line id2 else [])
    \<and> lastread (loop_ibutton (feed (later t2 id2) (loop_ibutton w)))
        = (if unat t1 + 3000 < unat t2 then t2 else t1)
    \<and> (t1 \<le> t2 \<and> t2 - t1 \<le> BUTTON_INTERVAL_TIME \<longrightarrow>
          tx (loop_ibutton (feed (later t2 id2) (loop_ibutton w))) = tx w @ id_line id1)
    \<and> (t1 \<le> t2 \<and> BUTTON_INTERVAL_TIME < t2 - t1 \<longrightarrow>
          tx (loop_ibutton (feed (later t2 id2) (loop_ibutton w)))
          = tx w @ id_line id1 @ id_line id2)"
proof -
  let ?w1 = "loop_ibutton w"
  let ?w2 = "loop_ibutton (feed (later t2 id2) ?w1)"
  have a: "tx ?w1 = tx w @ id_line id1" and b: "lastread ?w1 = t1"
    using loop_ibutton_steady [of w t1 id1] assms by simp_all
  have c: "tx ?w2 = tx ?w1 @ (if unat t1 + 3000 < unat t2 then id_line id2 else [])"
    and d: "lastread ?w2 = (if unat t1 + 3000 < unat t2 then t2 else t1)"
    using loop_ibutton_steady [of "feed (later t2 id2) ?w1" t2 id2] assms
    by (simp_all add: b later_def)
  have e: "gate t2 t2 BUTTON_INTERVAL_TIME t1 = (unat t1 + 3000 < unat t2)"
    by (simp add: gate_nat BUTTON_INTERVAL_TIME_def)
  have f: "t1 \<le> t2 \<Longrightarrow> (unat t1 + 3000 < unat t2) = (BUTTON_INTERVAL_TIME < t2 - t1)"
    using gate_no_wrap [of t1 t2 BUTTON_INTERVAL_TIME] e by simp
  show ?thesis using a b c d f by (auto simp: not_less)
qed

theorem debounce_two_reads_witness:
  "tx (loop_ibutton (feed (later 7001 demo_id) (loop_ibutton w_ready)))
     = ''<010203040506071C>'' @ line_break @ ''<010203040506071C>'' @ line_break
   \<and> lastread (loop_ibutton (feed (later 7001 demo_id) (loop_ibutton w_ready))) = 7001
   \<and> tx (loop_ibutton (feed (later 6999 demo_id) (loop_ibutton w_ready)))
     = ''<010203040506071C>'' @ line_break"
  using debounce_two_reads [of w_ready 4000 demo_id demo_id 7001]
    debounce_two_reads [of w_ready 4000 demo_id demo_id 6999]
  by (simp add: w_ready_fields demo_id_valid demo_id_line)

text \<open>
  C7. When the bus holds a device whose checksum fails, \<open>readButton\<close> returns false and
  leaves the world as it was; the read step of the loop changes nothing but the count of
  clock readings: nothing is sent, \<open>lastread\<close> and \<open>state\<close> keep their values, so the
  test that admits the next read is the same as before.
\<close>

theorem failed_checksum_no_effect:
  assumes "onewire_bus w = Device ident" and "crc8 w (take 7 ident) \<noteq> ident ! 7"
  shows "readButton w = (False, w)
    \<and> loop_ibutton w = w\<lparr>calls := calls (loop_ibutton w)\<rparr>
    \<and> tx (loop_ibutton w) = tx w
    \<and> lastread (loop_ibutton w) = lastread w
    \<and> state (loop_ibutton w) = state w"
proof -
  have a: "readButton w = (False, w)" using assms by (rule readButton_invalid)
  have b: "loop_ibutton w = w\<lparr>calls := calls (loop_ibutton w)\<rparr>"
    using assms by (rule loop_ibutton_invalid)
  have c: "tx (loop_ibutton w) = tx w" by (subst b) simp
  have d: "lastread (loop_ibutton w) = lastread w" by (subst b) simp
  from a b c d show ?thesis by simp
qed

theorem failed_checksum_no_effect_witness:
  "fst (interval_elapsed BUTTON_INTERVAL_TIME (lastread w_misread) w_misread)
   \<and> readButton w_misread = (False, w_misread)
   \<and> tx (loop_ibutton w_misread) = []
   \<and> lastread (loop_ibutton w_misread) = 0"
  using failed_checksum_no_effect [of w_misread bad_id]
  by (simp add: w_misread_fields bad_id_invalid interval_elapsed_steady BUTTON_INTERVAL_TIME_def)

text \<open>
  C9. For every identifier of 8 bytes whose checksum validates, \<open>readButton\<close> returns true
  and sends exactly \<open><\<close>, the 8 bytes as two upper-case hexadecimal digits each (16
  digits, a byte below 16 with a leading \<open>0\<close>), \<open>>\<close> and a line break.
\<close>

theorem identifier_line_format:
  assumes "onewire_bus w = Device ident" and "length ident = 8"
    and "crc8 w (take 7 ident) = ident ! 7"
  shows "fst (readButton w) = True
    \<and> tx (snd (readButton w)) = tx w @ ''<'' @ concat (map two_digit_hex ident) @ ''>'' @ line_break
    \<and> length (concat (map two_digit_hex ident)) = 16"
proof -
  have "length (concat (map two_digit_hex ident)) = 2 * length ident"
    by (induction ident) (simp_all add: two_digit_hex_def)
  then show ?thesis
    using assms readButton_valid [of w ident] by (simp add: id_line_def)
qed

theorem identifier_line_format_witness:
  "fst (readButton w_ready) = True
   \<and> tx (snd (readButton w_ready)) = ''<010203040506071C>'' @ line_break"
  using identifier_line_format [of w_ready demo_id] demo_id_line
  by (simp add: w_ready_fields demo_id_valid id_line_def)

section \<open>The command parser\<close>

text \<open>
  C8. \<open>readSerial\<close> is the parser of the specification: it drops the buffered bytes before
  the first \<open>E\<close>, \<open>D\<close> or \<open>P\<close> without a reply, returns the command of that byte, sends
  its acknowledgement and a line break, and leaves the bytes after it in the buffer,
  where they still are when the iteration ends; with no such byte it empties the buffer
  and returns \<open>NONE\<close>.
\<close>

theorem readSerial_one_command:
  "readSerial w = parse_spec w
   \<and> rx (loop w) = rx (snd (parse_spec w))
   \<and> (rx w = junk @ c # rest \<and> list_all (\<lambda>b. \<not> recognized b) junk \<and> recognized c \<longrightarrow>
        readSerial w = (command_of c,
          w\<lparr>rx := rest, tx := tx w @ acknowledgement (command_of c) @ line_break\<rparr>))
   \<and> (list_all (\<lambda>b. \<not> recognized b) (rx w) \<longrightarrow> readSerial w = (NONE, w\<lparr>rx := []\<rparr>))"
proof -
  have a: "readSerial w = parse_spec w" by (rule readSerial_eq)
  have "rx (snd (readSerial (loop_overflow_guard w))) = rx (snd (readSerial w))"
    by (cases "dropWhile (\<lambda>c. \<not> recognized c) (rx w)")
      (simp_all add: readSerial_eq parse_spec_def del: dropWhile_eq_Nil_conv)
  then have b: "rx (loop w) = rx (snd (parse_spec w))"
    by (simp add: rx_loop a)
  have c: "readSerial w = (command_of c,
          w\<lparr>rx := rest, tx := tx w @ acknowledgement (command_of c) @ line_break\<rparr>)"
    if "rx w = junk @ c # rest" "list_all (\<lambda>b. \<not> recognized b) junk" "recognized c"
  proof -
    from that have "dropWhile (\<lambda>c. \<not> recognized c) (rx w) = c # rest"
      by (simp add: dropWhile_append3 list_all_iff)
    then show ?thesis by (simp add: a parse_spec_def)
  qed
  have d: "readSerial w = (NONE, w\<lparr>rx := []\<rparr>)" if "list_all (\<lambda>b. \<not> recognized b) (rx w)"
  proof -
    from that have "dropWhile (\<lambda>c. \<not> recognized c) (rx w) = []"
      by (simp add: list_all_iff)
    then show ?thesis by (simp add: a parse_spec_def del: dropWhile_eq_Nil_conv)
  qed
  from a b c d show ?thesis by blast
qed

theorem readSerial_one_command_witness:
  "fst (readSerial w_bytes) = ENABLE
   \<and> rx (snd (readSerial w_bytes)) = ''yP''
   \<and> tx (snd (readSerial w_bytes)) = ''ENABLED'' @ line_break
   \<and> rx (loop w_bytes) = ''yP''
   \<and> fst (readSerial (w_bytes\<lparr>rx := ''xy''\<rparr>)) = NONE
   \<and> tx (snd (readSerial (w_bytes\<lparr>rx := ''xy''\<rparr>))) = []"
  using readSerial_one_command [of w_bytes "''x?''" "CHR ''E''" "''yP''"]
    readSerial_one_command [of "w_bytes\<lparr>rx := ''xy''\<rparr>"]
  by (simp add: w_bytes_def power_on_def recognized_def command_of_def parse_spec_def)

end
